theory Spec2Isabelle
  imports Main
begin

section \<open>The image converter \<^verbatim>\<open>image_generator.py\<close>\<close>

text \<open>
  The program is a top-level script of one source file:
  \<^verbatim>\<open>
  im = Image.open('icon.png')
  pixels = im.load()
  outfile = open("icon.ppm", "w")
  height, width = im.size
  outfile.write(f"P3\n{width} {height}\n")
  for y in range(height):
      for x in range(width):
          rbga = pixels[x, y]
          outfile.write(f"{rbga[2]} {rbga[0]} {rbga[1]} {rbga[3]}\n")
  \<close>
  Its only collaborator is the imaging library. The model fixes what the
  script uses of it: \<open>im.size\<close> is the pair (width, height), in this order;
  \<open>pixels[x, y]\<close> takes the horizontal coordinate first and raises IndexError
  outside the raster; a pixel of a multi-band image is a tuple of band values and
  a pixel of a single-band image is a bare number; opening a file whose raster
  has a dimension that is not positive is refused as not decodable.
\<close>

subsection \<open>Data\<close>

text \<open>
  The value of \<open>pixels[x, y]\<close>: a bare number for single-band modes, a tuple of
  8-bit band values otherwise. Band values are read as naturals.
\<close>

datatype pixel = Band nat | Bands "nat list"

text \<open>
  The decoded raster: its true width and height, and the pixel at each
  coordinate (horizontal first). Only coordinates inside the raster are ever
  read from \<open>im_data\<close>.
\<close>

record image =
  im_width :: nat
  im_height :: nat
  im_data :: "nat \<Rightarrow> nat \<Rightarrow> pixel"

text \<open>
  Every exception the script can raise. Both index errors are Python's
  IndexError; the model records the place that raised: the coordinate handed to
  \<open>pixels[x, y]\<close>, or the index handed to \<open>rbga[i]\<close>. \<open>TypeError\<close> is the
  subscript of a bare number.
\<close>

datatype error =
    DecodeError
  | ImageIndexError nat nat
  | TupleIndexError nat
  | TypeError

text \<open>
  The two files of the run: what \<open>icon.png\<close> holds (\<open>None\<close>: missing,
  unreadable or not an image) and the text of \<open>icon.ppm\<close> (\<open>None\<close>: the file
  does not exist). The destination is taken to be writable, and the text handed
  to \<open>outfile.write\<close> is taken to reach the file.
\<close>

record world =
  icon_png :: "image option"
  icon_ppm :: "string option"

subsection \<open>Text\<close>

definition newline :: char where
  "newline = CHR 0x0A"

definition digit :: "nat \<Rightarrow> char" where
  "digit d = ''0123456789'' ! d"

text \<open>Python's \<open>str\<close> on a non-negative integer: its decimal digits.\<close>

function str_nat :: "nat \<Rightarrow> string" where
  "str_nat n = (if n < 10 then [digit n] else str_nat (n div 10) @ [digit (n mod 10)])"
  by pat_completeness auto
termination
  by (relation "measure (\<lambda>n. n)") auto

declare str_nat.simps [simp del]

text \<open>
  The lines of a text, each ended by a line terminator; text after the last
  terminator counts as a final line. This is how the claims read the file.
\<close>

primrec lines_from :: "string \<Rightarrow> string \<Rightarrow> string list" where
  "lines_from cur [] = (if cur = [] then [] else [cur])"
| "lines_from cur (c # cs) =
     (if c = newline then cur # lines_from [] cs else lines_from (cur @ [c]) cs)"

definition file_lines :: "string \<Rightarrow> string list" where
  "file_lines s = lines_from [] s"

subsection \<open>The library operations the script calls\<close>

text \<open>\<open>Image.open('icon.png')\<close> followed by \<open>im.load()\<close>.\<close>

definition image_open :: "world \<Rightarrow> error + image" where
  "image_open w =
     (case icon_png w of
        None \<Rightarrow> Inl DecodeError
      | Some im \<Rightarrow>
          if im_width im = 0 \<or> im_height im = 0 then Inl DecodeError else Inr im)"

text \<open>\<open>im.size\<close>.\<close>

definition im_size :: "image \<Rightarrow> nat \<times> nat" where
  "im_size im = (im_width im, im_height im)"

text \<open>\<open>pixels[x, y]\<close>, for the non-negative coordinates \<open>range\<close> yields.\<close>

definition getitem_pixels :: "image \<Rightarrow> nat \<Rightarrow> nat \<Rightarrow> error + pixel" where
  "getitem_pixels im x y =
     (if x < im_width im \<and> y < im_height im then Inr (im_data im x y)
      else Inl (ImageIndexError x y))"

text \<open>\<open>rbga[i]\<close>.\<close>

fun getitem_rbga :: "pixel \<Rightarrow> nat \<Rightarrow> error + nat" where
  "getitem_rbga (Band v) i = Inl TypeError"
| "getitem_rbga (Bands t) i =
     (if i < length t then Inr (t ! i) else Inl (TupleIndexError i))"

subsection \<open>The script\<close>

text \<open>
  The formatted string of the inner write. Python evaluates the four
  subscripts from left to right, so the first failing one raises.
\<close>

definition pixel_line :: "pixel \<Rightarrow> error + string" where
  "pixel_line rbga =
     (case getitem_rbga rbga 2 of Inl e \<Rightarrow> Inl e | Inr c2 \<Rightarrow>
     (case getitem_rbga rbga 0 of Inl e \<Rightarrow> Inl e | Inr c0 \<Rightarrow>
     (case getitem_rbga rbga 1 of Inl e \<Rightarrow> Inl e | Inr c1 \<Rightarrow>
     (case getitem_rbga rbga 3 of Inl e \<Rightarrow> Inl e | Inr c3 \<Rightarrow>
        Inr (str_nat c2 @ '' '' @ str_nat c0 @ '' '' @ str_nat c1 @ '' '' @ str_nat c3
             @ [newline])))))"

text \<open>
  The inner loop \<open>for x in range(width)\<close> at a fixed \<open>y\<close>, over the values of
  \<open>x\<close> still to come. It threads the text written so far and stops at the first
  exception, returning it with the text written until then.
\<close>

fun loop_x :: "image \<Rightarrow> nat \<Rightarrow> nat list \<Rightarrow> string \<Rightarrow> error option \<times> string" where
  "loop_x im y [] out = (None, out)"
| "loop_x im y (x # xs) out =
     (case getitem_pixels im x y of
        Inl e \<Rightarrow> (Some e, out)
      | Inr rbga \<Rightarrow>
          (case pixel_line rbga of
             Inl e \<Rightarrow> (Some e, out)
           | Inr l \<Rightarrow> loop_x im y xs (out @ l)))"

text \<open>The outer loop \<open>for y in range(height)\<close>, over the values of \<open>y\<close> still to come.\<close>

fun loop_y :: "image \<Rightarrow> nat \<Rightarrow> nat list \<Rightarrow> string \<Rightarrow> error option \<times> string" where
  "loop_y im width [] out = (None, out)"
| "loop_y im width (y # ys) out =
     (case loop_x im y [0..<width] out of
        (Some e, out') \<Rightarrow> (Some e, out')
      | (None, out') \<Rightarrow> loop_y im width ys out')"

text \<open>
  The script from the unpacking of \<open>im.size\<close> on: the header write, then the
  loops. The result is the exception raised, if any, and the text written.
\<close>

definition convert :: "image \<Rightarrow> error option \<times> string" where
  "convert im =
     (case im_size im of
        (height, width) \<Rightarrow>
          loop_y im width [0..<height]
            (''P3'' @ [newline] @ str_nat width @ '' '' @ str_nat height @ [newline]))"

text \<open>
  The whole run. The image is opened and loaded first; only then is
  \<open>icon.ppm\<close> opened for writing, which creates or truncates it.
\<close>

definition run :: "world \<Rightarrow> error option \<times> world" where
  "run w =
     (case image_open w of
        Inl e \<Rightarrow> (Some e, w)
      | Inr im \<Rightarrow>
          (case convert im of
             (e, out) \<Rightarrow> (e, w\<lparr>icon_ppm := Some out\<rparr>)))"

subsection \<open>What a completed run writes\<close>

text \<open>
  Notions used to state the theorems. A pixel can be formatted when it is a
  tuple of at least four band values; \<open>line_body\<close> is then the text of its line
  without the terminator. An iteration at \<open>(x, y)\<close> succeeds when the
  coordinate is inside the raster and the pixel there can be formatted.
\<close>

fun four_bands :: "pixel \<Rightarrow> bool" where
  "four_bands (Band v) = False"
| "four_bands (Bands t) = (4 \<le> length t)"

fun line_body :: "pixel \<Rightarrow> string" where
  "line_body (Band v) = []"
| "line_body (Bands t) =
     str_nat (t ! 2) @ '' '' @ str_nat (t ! 0) @ '' '' @ str_nat (t ! 1) @ '' '' @ str_nat (t ! 3)"

definition readable :: "image \<Rightarrow> nat \<Rightarrow> nat \<Rightarrow> bool" where
  "readable im x y = (x < im_width im \<and> y < im_height im \<and> four_bands (im_data im x y))"

definition row_bodies :: "image \<Rightarrow> nat \<Rightarrow> nat list \<Rightarrow> string list" where
  "row_bodies im y xs = map (\<lambda>x. line_body (im_data im x y)) xs"

definition unlines :: "string list \<Rightarrow> string" where
  "unlines ls = concat (map (\<lambda>l. l @ [newline]) ls)"

definition grid_bodies :: "image \<Rightarrow> nat \<Rightarrow> nat list \<Rightarrow> string list" where
  "grid_bodies im w ys = concat (map (\<lambda>y. row_bodies im y [0..<w]) ys)"

text \<open>The two header lines, as the script writes them.\<close>

definition header :: "image \<Rightarrow> string" where
  "header im = unlines [''P3'', str_nat (im_height im) @ '' '' @ str_nat (im_width im)]"

subsection \<open>Concrete inputs\<close>

text \<open>An image whose pixels all have the same value, and a run that starts with no destination file.\<close>

definition solid :: "nat \<Rightarrow> nat \<Rightarrow> pixel \<Rightarrow> image" where
  "solid w h p = \<lparr>im_width = w, im_height = h, im_data = (\<lambda>x y. p)\<rparr>"

definition world_of :: "image \<Rightarrow> world" where
  "world_of im = \<lparr>icon_png = Some im, icon_ppm = None\<rparr>"

text \<open>The 1 by 1 fully opaque red image.\<close>

definition red_1x1 :: image where
  "red_1x1 = solid 1 1 (Bands [255, 0, 0, 255])"

text \<open>The 2 wide, 1 high image with pixels (10,20,30,255) and (40,50,60,255), left to right.\<close>

definition two_by_one :: image where
  "two_by_one =
     \<lparr>im_width = 2, im_height = 1,
      im_data = (\<lambda>x y. if x = 0 then Bands [10, 20, 30, 255] else Bands [40, 50, 60, 255])\<rparr>"

text \<open>An image of four bands whose pixel at \<open>(x, y)\<close> is \<open>(x, y, 0, 255)\<close>.\<close>

definition coords_image :: "nat \<Rightarrow> nat \<Rightarrow> image" where
  "coords_image w h = \<lparr>im_width = w, im_height = h, im_data = (\<lambda>x y. Bands [x, y, 0, 255])\<rparr>"

section \<open>Properties\<close>

subsection \<open>Text, lines and the loops\<close>

lemma digit_not_newline: "d < 10 \<Longrightarrow> digit d \<noteq> newline"
proof -
  assume "d < 10"
  then have "d \<in> {0,1,2,3,4,5,6,7,8,9}" by auto
  then show ?thesis by (auto simp: digit_def newline_def)
qed

lemma str_nat_no_newline: "newline \<notin> set (str_nat n)"
proof (induction n rule: str_nat.induct)
  case (1 n)
  show ?case
  proof (cases "n < 10")
    case True
    then show ?thesis using digit_not_newline[of n] by (simp add: str_nat.simps)
  next
    case False
    have "n mod 10 < 10" by simp
    then have "digit (n mod 10) \<noteq> newline" by (rule digit_not_newline)
    with False 1 show ?thesis by (subst str_nat.simps) auto
  qed
qed

lemma space_not_newline: "CHR '' '' \<noteq> newline"
  by (simp add: newline_def)

lemma line_body_no_newline: "newline \<notin> set (line_body p)"
  using space_not_newline by (cases p) (auto simp: str_nat_no_newline)

lemma lines_from_line:
  "newline \<notin> set l \<Longrightarrow> lines_from cur (l @ newline # rest) = (cur @ l) # lines_from [] rest"
  by (induction l arbitrary: cur) auto

lemma lines_from_unlines:
  "\<forall>l \<in> set ls. newline \<notin> set l \<Longrightarrow> lines_from [] (unlines ls @ rest) = ls @ lines_from [] rest"
proof (induction ls)
  case Nil
  then show ?case by (simp add: unlines_def)
next
  case (Cons l ls)
  have "lines_from [] (unlines (l # ls) @ rest) = lines_from [] (l @ newline # (unlines ls @ rest))"
    by (simp add: unlines_def)
  also have "\<dots> = l # lines_from [] (unlines ls @ rest)"
    using Cons.prems by (simp add: lines_from_line)
  finally show ?case using Cons by simp
qed

lemma unlines_append: "unlines (as @ bs) = unlines as @ unlines bs"
  by (simp add: unlines_def)

lemma pixel_line_four: "four_bands p \<Longrightarrow> pixel_line p = Inr (line_body p @ [newline])"
  by (cases p) (auto simp: pixel_line_def)

lemma pixel_line_InrD: "pixel_line p = Inr l \<Longrightarrow> four_bands p \<and> l = line_body p @ [newline]"
  by (cases p) (auto simp: pixel_line_def split: if_splits sum.splits)

lemma loop_x_None:
  "loop_x im y xs out = (None, out') \<longleftrightarrow>
     (\<forall>x \<in> set xs. readable im x y) \<and> out' = out @ unlines (row_bodies im y xs)"
proof (induction xs arbitrary: out)
  case Nil
  then show ?case by (auto simp: unlines_def row_bodies_def)
next
  case (Cons x xs)
  show ?case
  proof (cases "readable im x y")
    case True
    then have "loop_x im y (x # xs) out = loop_x im y xs (out @ line_body (im_data im x y) @ [newline])"
      by (simp add: readable_def getitem_pixels_def pixel_line_four)
    then show ?thesis using True Cons.IH by (auto simp: unlines_def row_bodies_def)
  next
    case False
    then have "fst (loop_x im y (x # xs) out) \<noteq> None"
      by (auto simp: readable_def getitem_pixels_def split: sum.splits dest: pixel_line_InrD)
    then show ?thesis using False by auto
  qed
qed

lemma loop_x_append:
  "loop_x im y (xs @ zs) out =
     (case loop_x im y xs out of (Some e, out') \<Rightarrow> (Some e, out') | (None, out') \<Rightarrow> loop_x im y zs out')"
  by (induction xs arbitrary: out) (auto split: sum.splits)

lemma loop_y_append:
  "loop_y im w (ys @ zs) out =
     (case loop_y im w ys out of (Some e, out') \<Rightarrow> (Some e, out') | (None, out') \<Rightarrow> loop_y im w zs out')"
  by (induction ys arbitrary: out) (auto split: prod.splits option.splits)

lemma loop_y_None:
  "loop_y im w ys out = (None, out') \<longleftrightarrow>
     (\<forall>y \<in> set ys. \<forall>x \<in> set [0..<w]. readable im x y) \<and> out' = out @ unlines (grid_bodies im w ys)"
proof (induction ys arbitrary: out)
  case Nil
  then show ?case by (auto simp: unlines_def grid_bodies_def)
next
  case (Cons y ys)
  show ?case
  proof (cases "\<forall>x \<in> set [0..<w]. readable im x y")
    case True
    then have "loop_x im y [0..<w] out = (None, out @ unlines (row_bodies im y [0..<w]))"
      by (simp add: loop_x_None)
    then have "loop_y im w (y # ys) out = loop_y im w ys (out @ unlines (row_bodies im y [0..<w]))"
      by simp
    then show ?thesis using True Cons.IH by (auto simp: grid_bodies_def unlines_append)
  next
    case False
    then have "\<not> (\<exists>out'. loop_x im y [0..<w] out = (None, out'))"
      by (simp only: loop_x_None) blast
    then have "fst (loop_y im w (y # ys) out) \<noteq> None"
      by (auto split: prod.splits option.splits)
    then show ?thesis using False by auto
  qed
qed

subsection \<open>Completed runs and the text written\<close>

lemma convert_unfold:
  "convert im = loop_y im (im_height im) [0..<im_width im] (header im)"
  by (simp add: convert_def im_size_def header_def unlines_def)

lemma row_bodies_no_newline: "\<forall>l \<in> set (row_bodies im y xs). newline \<notin> set l"
  by (auto simp: row_bodies_def line_body_no_newline)

lemma grid_bodies_no_newline: "\<forall>l \<in> set (grid_bodies im w ys). newline \<notin> set l"
  using row_bodies_no_newline by (fastforce simp: grid_bodies_def)

lemma header_lines_no_newline:
  "\<forall>l \<in> set [''P3'', str_nat h @ '' '' @ str_nat w]. newline \<notin> set l"
proof -
  have "newline \<notin> set ''P3''" by (simp add: newline_def)
  then show ?thesis using space_not_newline by (auto simp: str_nat_no_newline)
qed

lemma file_lines_header:
  "file_lines (header im @ rest) =
     ''P3'' # (str_nat (im_height im) @ '' '' @ str_nat (im_width im)) # file_lines rest"
  unfolding file_lines_def header_def
  using lines_from_unlines [OF header_lines_no_newline] by simp

lemma file_lines_grid:
  "file_lines (unlines (grid_bodies im w ys)) = grid_bodies im w ys"
  unfolding file_lines_def
  using lines_from_unlines [OF grid_bodies_no_newline, of im w ys "[]"] by simp

lemma length_grid_bodies: "length (grid_bodies im w ys) = length ys * w"
  by (induction ys) (auto simp: grid_bodies_def row_bodies_def)




lemma convert_None:
  "convert im = (None, out) \<longleftrightarrow>
     (\<forall>y \<in> set [0..<im_width im]. \<forall>x \<in> set [0..<im_height im]. readable im x y)
     \<and> out = header im @ unlines (grid_bodies im (im_height im) [0..<im_width im])"
  by (simp only: convert_unfold loop_y_None)

lemma completed_square:
  assumes "convert im = (None, out)" "0 < im_width im" "0 < im_height im"
  shows "im_width im = im_height im"
proof -
  from assms(1) have r: "\<forall>y \<in> set [0..<im_width im]. \<forall>x \<in> set [0..<im_height im]. readable im x y"
    unfolding convert_None by blast
  have "im_width im - 1 < im_width im" "im_height im - 1 < im_height im"
    using assms by simp_all
  with r have "readable im (im_height im - 1) (im_width im - 1)" by simp
  then have "im_height im - 1 < im_width im" "im_width im - 1 < im_height im"
    by (simp_all add: readable_def)
  then show ?thesis using assms(2,3) by arith
qed

lemma run_decoded:
  "image_open w = Inr im \<Longrightarrow> run w = (fst (convert im), w\<lparr>icon_ppm := Some (snd (convert im))\<rparr>)"
  by (simp add: run_def split: prod.splits)

lemma loop_x_prefix: "\<exists>s. snd (loop_x im y xs out) = out @ s"
proof (induction xs arbitrary: out)
  case Nil
  then show ?case by simp
next
  case (Cons x xs)
  show ?case
  proof (cases "getitem_pixels im x y")
    case (Inl e)
    then show ?thesis by simp
  next
    case (Inr p)
    show ?thesis
    proof (cases "pixel_line p")
      case (Inl e)
      then show ?thesis using Inr by simp
    next
      case (Inr l)
      from Cons.IH [of "out @ l"] obtain s where "snd (loop_x im y xs (out @ l)) = (out @ l) @ s" ..
      then show ?thesis using Inr \<open>getitem_pixels im x y = Inr p\<close> by simp
    qed
  qed
qed

lemma loop_y_prefix: "\<exists>s. snd (loop_y im w ys out) = out @ s"
proof (induction ys arbitrary: out)
  case Nil
  then show ?case by simp
next
  case (Cons y ys)
  obtain e out' where r: "loop_x im y [0..<w] out = (e, out')" by (cases "loop_x im y [0..<w] out")
  from loop_x_prefix [of im y "[0..<w]" out] r obtain s where s: "out' = out @ s" by auto
  show ?case
  proof (cases e)
    case None
    from Cons.IH [of out'] obtain t where "snd (loop_y im w ys out') = out' @ t" ..
    then show ?thesis using r s None by simp
  next
    case (Some a)
    then show ?thesis using r s by simp
  qed
qed

lemma convert_prefix: "\<exists>s. snd (convert im) = header im @ s"
  by (simp only: convert_unfold loop_y_prefix)

subsection \<open>Opening the input\<close>

lemma image_open_InrD:
  "image_open w = Inr im \<Longrightarrow> icon_png w = Some im \<and> 0 < im_width im \<and> 0 < im_height im"
  by (auto simp: image_open_def split: option.splits if_splits)

lemma image_open_InlD: "image_open w = Inl e \<Longrightarrow> e = DecodeError"
  by (auto simp: image_open_def split: option.splits if_splits)

subsection \<open>Runs that stop with an exception\<close>

lemma pixel_line_short:
  "\<not> four_bands p \<Longrightarrow>
     pixel_line p =
       Inl (case p of Band v \<Rightarrow> TypeError
            | Bands t \<Rightarrow> TupleIndexError (if length t = 3 then 3 else 2))"
  by (cases p) (auto simp: pixel_line_def)

lemma upt_split_at: "a < b \<Longrightarrow> [0..<b] = [0..<a] @ a # [Suc a..<b]"
proof -
  assume ab: "a < b"
  have "[0..<a + (b - a)] = [0..<a] @ [a..<a + (b - a)]"
    by (rule upt_add_eq_append) simp
  then have "[0..<b] = [0..<a] @ [a..<b]"
    using ab by simp
  also have "[a..<b] = a # [Suc a..<b]"
    using ab by (rule upt_conv_Cons)
  finally show ?thesis .
qed

lemma convert_wide:
  assumes "im_height im < im_width im" and "0 < im_height im"
    and "\<forall>x < im_width im. \<forall>y < im_height im. four_bands (im_data im x y)"
  shows "fst (convert im) = Some (ImageIndexError 0 (im_height im))"
proof -
  let ?W = "im_width im" and ?H = "im_height im"
  have rows: "[0..<?W] = [0..<?H] @ ?H # [Suc ?H..<?W]"
    using assms(1) by (rule upt_split_at)
  have "\<forall>y \<in> set [0..<?H]. \<forall>x \<in> set [0..<?H]. readable im x y"
    using assms(1,3) by (auto simp: readable_def)
  then obtain out' where top: "loop_y im ?H [0..<?H] (header im) = (None, out')"
    using loop_y_None by blast
  have cols: "[0..<?H] = 0 # [Suc 0..<?H]"
    using assms(2) by (simp add: upt_conv_Cons)
  have "getitem_pixels im 0 ?H = Inl (ImageIndexError 0 ?H)"
    by (simp add: getitem_pixels_def)
  then have "loop_x im ?H [0..<?H] out' = (Some (ImageIndexError 0 ?H), out')"
    by (subst cols) simp
  then have "loop_y im ?H (?H # [Suc ?H..<?W]) out' = (Some (ImageIndexError 0 ?H), out')"
    by simp
  then have "loop_y im ?H [0..<?W] (header im) = (Some (ImageIndexError 0 ?H), out')"
    by (subst rows) (simp only: loop_y_append top split: prod.splits option.splits, simp)
  then show ?thesis by (simp add: convert_unfold)
qed

lemma convert_tall:
  assumes "im_width im < im_height im" and "0 < im_width im"
    and "\<forall>x < im_width im. \<forall>y < im_height im. four_bands (im_data im x y)"
  shows "fst (convert im) = Some (ImageIndexError (im_width im) 0)"
proof -
  let ?W = "im_width im" and ?H = "im_height im"
  have rows: "[0..<?W] = 0 # [Suc 0..<?W]"
    using assms(2) by (simp add: upt_conv_Cons)
  have cols: "[0..<?H] = [0..<?W] @ ?W # [Suc ?W..<?H]"
    using assms(1) by (rule upt_split_at)
  have "\<forall>x \<in> set [0..<?W]. readable im x 0"
    using assms by (auto simp: readable_def)
  then obtain out' where left: "loop_x im 0 [0..<?W] (header im) = (None, out')"
    using loop_x_None by blast
  have "getitem_pixels im ?W 0 = Inl (ImageIndexError ?W 0)"
    by (simp add: getitem_pixels_def)
  then have "loop_x im 0 (?W # [Suc ?W..<?H]) out' = (Some (ImageIndexError ?W 0), out')"
    by simp
  then have "loop_x im 0 [0..<?H] (header im) = (Some (ImageIndexError ?W 0), out')"
    by (subst cols) (simp only: loop_x_append left split: prod.splits option.splits, simp)
  then have "loop_y im ?H [0..<?W] (header im) = (Some (ImageIndexError ?W 0), out')"
    by (subst rows) simp
  then show ?thesis by (simp add: convert_unfold)
qed

section \<open>The claims\<close>

text \<open>
  C10. When \<open>icon.png\<close> cannot be opened as an image, the run fails with a
  decode error and the destination is exactly as it was before the run: nothing
  is written to it, and if it did not exist it still does not, because the
  script opens the image before it opens the destination.
\<close>

theorem decode_failure_destination_untouched:
  "image_open w = Inl e \<Longrightarrow> run w = (Some DecodeError, w) \<and> icon_ppm (snd (run w)) = icon_ppm w"
  by (auto simp: run_def dest: image_open_InlD)

theorem decode_failure_destination_untouched_witness:
  "image_open \<lparr>icon_png = None, icon_ppm = None\<rparr> = Inl DecodeError
   \<and> run \<lparr>icon_png = None, icon_ppm = None\<rparr> = (Some DecodeError, \<lparr>icon_png = None, icon_ppm = None\<rparr>)
   \<and> icon_ppm (snd (run \<lparr>icon_png = None, icon_ppm = None\<rparr>)) = None"
proof -
  have h: "image_open \<lparr>icon_png = None, icon_ppm = None\<rparr> = Inl DecodeError"
    by (simp add: image_open_def)
  show ?thesis
    using h decode_failure_destination_untouched [OF h] by simp
qed

text \<open>
  C6, as the claim states it, fails: on the 1 by 1 opaque red image the file is
  not the tag line, \<open>1 1\<close> and \<open>0 255 0\<close>.
\<close>

theorem red_pixel_output_counterexample:
  "icon_ppm (snd (run (world_of red_1x1))) \<noteq> Some ''P3\<newline>1 1\<newline>0 255 0\<newline>''"
  by code_simp

text \<open>
  C6, amended. On the 1 by 1 opaque red image (255, 0, 0, 255) the run completes
  and the file is exactly the tag line \<open>P3\<close>, the line \<open>1 1\<close> and the line
  \<open>0 255 0 255\<close>: the pixel line carries the fourth band as a fourth number.
\<close>

theorem red_pixel_output:
  "fst (run (world_of red_1x1)) = None
   \<and> icon_ppm (snd (run (world_of red_1x1))) = Some ''P3\<newline>1 1\<newline>0 255 0 255\<newline>''"
  by code_simp




text \<open>
  C2 is broken by the code. The script unpacks \<open>im.size\<close>, which is (width,
  height), as \<open>height, width\<close>, and writes \<open>{width} {height}\<close>: the second line
  holds the true height first. On a 1 wide, 2 high image it is \<open>2 1\<close>, not
  \<open>1 2\<close>.
\<close>

theorem header_dimensions_swapped:
  "file_lines (the (icon_ppm (snd (run (world_of (solid 1 2 (Bands [0, 0, 0, 255]))))))) ! 1 = ''2 1''
   \<and> file_lines (the (icon_ppm (snd (run (world_of (solid 1 2 (Bands [0, 0, 0, 255]))))))) ! 1 \<noteq> ''1 2''"
  by code_simp

text \<open>
  C3, as the claim states it, fails: on the 2 by 1 image the file is not the tag
  line, \<open>2 1\<close>, \<open>30 10 20\<close> and \<open>60 40 50\<close>.
\<close>

theorem two_by_one_output_counterexample:
  "icon_ppm (snd (run (world_of two_by_one))) \<noteq> Some ''P3\<newline>2 1\<newline>30 10 20\<newline>60 40 50\<newline>''"
  by code_simp

text \<open>
  C3, amended. On the 2 by 1 image with pixels (10,20,30,255) and (40,50,60,255)
  the script writes the tag line \<open>P3\<close> first, and the line it writes for the first
  pixel is \<open>30 10 20 255\<close>, with the fourth band as a fourth number. (Nothing is
  said here of the dimension line or of the second pixel, which the swapped
  unpacking of \<open>im.size\<close> affects.)
\<close>

theorem two_by_one_output:
  "icon_ppm (snd (run (world_of two_by_one))) \<noteq> None
   \<and> file_lines (the (icon_ppm (snd (run (world_of two_by_one))))) ! 0 = ''P3''
   \<and> file_lines (the (icon_ppm (snd (run (world_of two_by_one))))) ! 2 = ''30 10 20 255''"
  by code_simp

text \<open>
  C4, as the claim states it, fails: on a 3 wide, 2 high image whose pixels are
  the 3-tuple (9, 8, 7) the run stops at the first pixel, \<open>(0, 0)\<close>, with the
  index error of \<open>rbga[3]\<close>, after the header; no coordinate outside the raster
  is ever handed to \<open>pixels[x, y]\<close>.
\<close>

theorem unequal_dimensions_never_complete_counterexample:
  "im_width (solid 3 2 (Bands [9, 8, 7])) \<noteq> im_height (solid 3 2 (Bands [9, 8, 7]))
   \<and> run (world_of (solid 3 2 (Bands [9, 8, 7]))) =
       (Some (TupleIndexError 3),
        (world_of (solid 3 2 (Bands [9, 8, 7])))\<lparr>icon_ppm := Some ''P3\<newline>2 3\<newline>''\<rparr>)
   \<and> fst (run (world_of (solid 3 2 (Bands [9, 8, 7])))) \<noteq> Some (ImageIndexError 0 2)"
proof -
  have h1: "image_open (world_of (solid 3 2 (Bands [9, 8, 7]))) = Inr (solid 3 2 (Bands [9, 8, 7]))"
    by (simp add: image_open_def world_of_def solid_def)
  have c: "convert (solid 3 2 (Bands [9, 8, 7])) = (Some (TupleIndexError 3), ''P3\<newline>2 3\<newline>'')"
    by code_simp
  have "run (world_of (solid 3 2 (Bands [9, 8, 7]))) =
       (Some (TupleIndexError 3),
        (world_of (solid 3 2 (Bands [9, 8, 7])))\<lparr>icon_ppm := Some ''P3\<newline>2 3\<newline>''\<rparr>)"
    using h1 c by (simp add: run_decoded)
  then show ?thesis by (simp add: solid_def)
qed

text \<open>
  C4, amended. On a decoded image whose width differs from its height the run
  never completes, so a run can complete only when width and height are equal.
  When moreover every pixel is a tuple of four bands, the pixel loop hands
  \<open>pixels[x, y]\<close> a coordinate outside the raster and the exception is that
  index error: at \<open>(0, height)\<close> when the image is wider than high, at
  \<open>(width, 0)\<close> when it is higher than wide.
\<close>

theorem unequal_dimensions_never_complete:
  assumes "image_open w = Inr im" and "im_width im \<noteq> im_height im"
  shows "fst (run w) \<noteq> None
         \<and> ((\<forall>x < im_width im. \<forall>y < im_height im. four_bands (im_data im x y)) \<longrightarrow>
              fst (run w) =
                Some (if im_height im < im_width im then ImageIndexError 0 (im_height im)
                      else ImageIndexError (im_width im) 0))"
proof -
  from assms(1) have pos: "0 < im_width im" "0 < im_height im"
    by (auto dest: image_open_InrD)
  have r: "fst (run w) = fst (convert im)"
    using assms(1) by (simp add: run_decoded)
  have "fst (convert im) \<noteq> None"
  proof
    assume "fst (convert im) = None"
    then have "convert im = (None, snd (convert im))" by (simp add: prod_eq_iff)
    then have "im_width im = im_height im" using pos by (rule completed_square)
    with assms(2) show False by simp
  qed
  moreover have "fst (convert im) =
      Some (if im_height im < im_width im then ImageIndexError 0 (im_height im)
            else ImageIndexError (im_width im) 0)"
    if "\<forall>x < im_width im. \<forall>y < im_height im. four_bands (im_data im x y)"
  proof (cases "im_height im < im_width im")
    case True
    then show ?thesis using pos that by (simp add: convert_wide)
  next
    case False
    with assms(2) have "im_width im < im_height im" by simp
    then show ?thesis using pos that False by (simp add: convert_tall)
  qed
  ultimately show ?thesis using r by simp
qed

theorem unequal_dimensions_never_complete_witness:
  "image_open (world_of (coords_image 3 2)) = Inr (coords_image 3 2)
   \<and> im_width (coords_image 3 2) \<noteq> im_height (coords_image 3 2)
   \<and> fst (run (world_of (coords_image 3 2))) \<noteq> None
   \<and> fst (run (world_of (coords_image 3 2))) = Some (ImageIndexError 0 2)"
proof -
  have h1: "image_open (world_of (coords_image 3 2)) = Inr (coords_image 3 2)"
    by (simp add: image_open_def world_of_def coords_image_def)
  have h2: "im_width (coords_image 3 2) \<noteq> im_height (coords_image 3 2)"
    by (simp add: coords_image_def)
  have h3: "\<forall>x < im_width (coords_image 3 2). \<forall>y < im_height (coords_image 3 2).
              four_bands (im_data (coords_image 3 2) x y)"
    by (simp add: coords_image_def)
  from unequal_dimensions_never_complete [OF h1 h2] h3
  have "fst (run (world_of (coords_image 3 2))) \<noteq> None
        \<and> fst (run (world_of (coords_image 3 2))) = Some (ImageIndexError 0 2)"
    by (simp add: coords_image_def)
  with h1 h2 show ?thesis by simp
qed

text \<open>
  C5. On every run that completes on a decoded image of width \<open>W\<close> and height
  \<open>H\<close>, the file has exactly \<open>2 + W * H\<close> lines.
\<close>

theorem completed_run_line_count:
  assumes "image_open w = Inr im" and "run w = (None, w')"
  shows "\<exists>out. icon_ppm w' = Some out
           \<and> length (file_lines out) = 2 + im_width im * im_height im"
proof -
  from assms have c: "fst (convert im) = None" and w': "icon_ppm w' = Some (snd (convert im))"
    by (auto simp: run_decoded)
  from c have "convert im = (None, snd (convert im))" by (simp add: prod_eq_iff)
  then have "snd (convert im) = header im @ unlines (grid_bodies im (im_height im) [0..<im_width im])"
    unfolding convert_None by blast
  then have "length (file_lines (snd (convert im))) = 2 + im_width im * im_height im"
    by (simp add: file_lines_header file_lines_grid length_grid_bodies)
  with w' show ?thesis by simp
qed

theorem completed_run_line_count_witness:
  "image_open (world_of (coords_image 2 2)) = Inr (coords_image 2 2)
   \<and> fst (run (world_of (coords_image 2 2))) = None
   \<and> length (file_lines (the (icon_ppm (snd (run (world_of (coords_image 2 2))))))) = 6"
proof -
  have h1: "image_open (world_of (coords_image 2 2)) = Inr (coords_image 2 2)"
    by (simp add: image_open_def world_of_def coords_image_def)
  have h2: "fst (run (world_of (coords_image 2 2))) = None"
    by code_simp
  then have h3: "run (world_of (coords_image 2 2)) = (None, snd (run (world_of (coords_image 2 2))))"
    by (simp add: prod_eq_iff)
  from completed_run_line_count [OF h1 h3] have
    "length (file_lines (the (icon_ppm (snd (run (world_of (coords_image 2 2))))))) = 6"
    by (auto simp: coords_image_def)
  with h1 h2 show ?thesis by simp
qed

text \<open>
  C7 is broken by the code. The loops take their bounds from the swapped
  unpacking of \<open>im.size\<close>, so on a 3 wide, 2 high image the inner loop covers
  only the horizontal positions 0 and 1 of each row: the pixels at horizontal
  position 2 are never written, and the run stops with an index error at
  \<open>(0, 2)\<close>. The pixel at \<open>(x, y)\<close> of this image is \<open>(x, y, 0, 255)\<close>, so its
  line would be \<open>0 x y 255\<close>.
\<close>

theorem wide_image_rows_cut_short:
  "fst (run (world_of (coords_image 3 2))) = Some (ImageIndexError 0 2)
   \<and> file_lines (the (icon_ppm (snd (run (world_of (coords_image 3 2)))))) =
       [''P3'', ''2 3'', ''0 0 0 255'', ''0 1 0 255'', ''0 0 1 255'', ''0 1 1 255'']"
  by code_simp

text \<open>
  C8, as the claim states it, fails: the first line has two characters, not
  three.
\<close>

theorem first_line_tag_counterexample:
  "length (file_lines (the (icon_ppm (snd (run (world_of (solid 2 2 (Bands [0, 0, 0, 0]))))))) ! 0) \<noteq> 3"
  by code_simp

text \<open>
  C8, amended. The first line of every output file is the literal 2-character
  format tag \<open>P3\<close>, followed by a line terminator: the first three characters
  of the file are \<open>P\<close>, \<open>3\<close> and the terminator.
\<close>

theorem first_line_tag:
  assumes "image_open w = Inr im"
  shows "\<exists>out. icon_ppm (snd (run w)) = Some out
           \<and> take 3 out = ''P3'' @ [newline]
           \<and> file_lines out ! 0 = ''P3''"
proof -
  obtain s where s: "snd (convert im) = header im @ s"
    using convert_prefix by blast
  have "take 3 (header im @ s) = ''P3'' @ [newline]"
    by (simp add: header_def unlines_def)
  moreover have "file_lines (header im @ s) ! 0 = ''P3''"
    by (simp add: file_lines_header)
  ultimately show ?thesis using assms s by (simp add: run_decoded)
qed

theorem first_line_tag_witness:
  "image_open (world_of (solid 1 1 (Band 0))) = Inr (solid 1 1 (Band 0))
   \<and> take 3 (the (icon_ppm (snd (run (world_of (solid 1 1 (Band 0))))))) = ''P3'' @ [newline]
   \<and> file_lines (the (icon_ppm (snd (run (world_of (solid 1 1 (Band 0))))))) ! 0 = ''P3''"
proof -
  have h: "image_open (world_of (solid 1 1 (Band 0))) = Inr (solid 1 1 (Band 0))"
    by (simp add: image_open_def world_of_def solid_def)
  from first_line_tag [OF h] h show ?thesis by auto
qed

text \<open>
  C9, as the claim states it, fails: on a 1 by 1 image whose pixel is the
  2-tuple (7, 255) the index error is raised by \<open>rbga[2]\<close>, the first subscript
  the format evaluates; \<open>rbga[3]\<close> is never reached.
\<close>

theorem short_pixel_failure_counterexample:
  "fst (run (world_of (solid 1 1 (Bands [7, 255])))) = Some (TupleIndexError 2)
   \<and> fst (run (world_of (solid 1 1 (Bands [7, 255])))) \<noteq> Some (TupleIndexError 3)"
  by code_simp

text \<open>
  C9, amended. On every decoded image whose first pixel exposes fewer than four
  band values, the read of that pixel fails and the run stops there, with only
  the two header lines written: with an index error at band index 3 when the
  pixel is a 3-tuple, with an index error at band index 2 (the first index
  read) when it is a shorter tuple, and with a type error when it is a bare
  number.
\<close>

theorem short_pixel_failure:
  assumes "image_open w = Inr im" and "\<not> four_bands (im_data im 0 0)"
  shows "run w =
           (Some (case im_data im 0 0 of
                    Band v \<Rightarrow> TypeError
                  | Bands t \<Rightarrow> TupleIndexError (if length t = 3 then 3 else 2)),
            w\<lparr>icon_ppm :=
                Some (''P3'' @ [newline] @ str_nat (im_height im) @ '' '' @ str_nat (im_width im)
                      @ [newline])\<rparr>)"
proof -
  let ?e = "case im_data im 0 0 of
              Band v \<Rightarrow> TypeError
            | Bands t \<Rightarrow> TupleIndexError (if length t = 3 then 3 else 2)"
  from assms(1) have pos: "0 < im_width im" "0 < im_height im"
    by (auto dest: image_open_InrD)
  have rows: "[0..<im_width im] = 0 # [Suc 0..<im_width im]"
    and cols: "[0..<im_height im] = 0 # [Suc 0..<im_height im]"
    using pos by (simp_all add: upt_conv_Cons)
  have "getitem_pixels im 0 0 = Inr (im_data im 0 0)"
    using pos by (simp add: getitem_pixels_def)
  then have "loop_x im 0 [0..<im_height im] (header im) = (Some ?e, header im)"
    using pixel_line_short [OF assms(2)] by (subst cols) simp
  then have "convert im = (Some ?e, header im)"
    unfolding convert_unfold by (subst rows) simp
  moreover have "header im =
      ''P3'' @ [newline] @ str_nat (im_height im) @ '' '' @ str_nat (im_width im) @ [newline]"
    by (simp add: header_def unlines_def)
  ultimately show ?thesis using assms(1) by (simp add: run_decoded)
qed

theorem short_pixel_failure_witness:
  "image_open (world_of (solid 2 3 (Bands [9, 8, 7]))) = Inr (solid 2 3 (Bands [9, 8, 7]))
   \<and> \<not> four_bands (im_data (solid 2 3 (Bands [9, 8, 7])) 0 0)
   \<and> fst (run (world_of (solid 2 3 (Bands [9, 8, 7])))) = Some (TupleIndexError 3)
   \<and> icon_ppm (snd (run (world_of (solid 2 3 (Bands [9, 8, 7]))))) = Some ''P3\<newline>3 2\<newline>''"
proof -
  have h1: "image_open (world_of (solid 2 3 (Bands [9, 8, 7]))) = Inr (solid 2 3 (Bands [9, 8, 7]))"
    by (simp add: image_open_def world_of_def solid_def)
  have h2: "\<not> four_bands (im_data (solid 2 3 (Bands [9, 8, 7])) 0 0)"
    by (simp add: solid_def)
  have s2: "str_nat 2 = ''2''" and s3: "str_nat 3 = ''3''"
    by code_simp+
  from short_pixel_failure [OF h1 h2] h1 h2 show ?thesis
    by (simp add: solid_def s2 s3 newline_def)
qed

end
